theory Spec2Isabelle
  imports Main
begin

section \<open>Values, exceptions and the outside world\<close>

text \<open>
  The program is the class \<open>YouTubeSubscriptionTransfer\<close> of
  \<open>youtube_subscription_transfer.py\<close>. A Python dict with string keys is an association
  list; \<open>d.get(k, default)\<close> is \<open>dict_get\<close>.
\<close>

type_synonym 'v dict = "(string \<times> 'v) list"

definition dict_get :: "'v dict \<Rightarrow> string \<Rightarrow> 'v \<Rightarrow> 'v" where
  "dict_get d k dflt = (case map_of d k of None \<Rightarrow> dflt | Some v \<Rightarrow> v)"

text \<open>The values stored in the progress record: integers and strings.\<close>

datatype jval = JInt int | JStr string

text \<open>
  The attribute \<open>error_details\<close> of an \<open>HttpError\<close>: the errors array of the API's error
  response, a list whose items are dicts (or, in a response of another shape, are not),
  or a string: the body of a response that is not such JSON (an HTML error page, say),
  empty when the library found no details.
\<close>

datatype detail = Dict_detail "string dict" | Other_detail

datatype details = Details_list "detail list" | Details_str string

text \<open>
  The exceptions that reach the code. All of them but \<open>KeyboardInterrupt\<close> are subclasses
  of \<open>Exception\<close>; \<open>KeyboardInterrupt\<close> is how the operator interrupts a run.
\<close>

datatype exn =
    HttpError details
  | KeyError string
  | TypeError
  | AttributeError
  | OSError
  | ValueError
  | KeyboardInterrupt

fun is_Exception :: "exn \<Rightarrow> bool" where
  "is_Exception KeyboardInterrupt = False"
| "is_Exception _ = True"

fun is_HttpError :: "exn \<Rightarrow> bool" where
  "is_HttpError (HttpError _) = True"
| "is_HttpError _ = False"

text \<open>
  A file is missing, or present but unusable (opening it or \<open>json.load\<close> raises), or
  holds a JSON value.
\<close>

datatype 'a disk_file = Absent | Garbage | Json 'a

text \<open>The document \<open>save_subscriptions\<close> writes; \<open>subscriptions\<close> is \<open>None\<close> when the key is missing.\<close>

record snapshot =
  export_date :: string
  total_subscriptions :: int
  subscriptions :: "string dict list option"

text \<open>The statistics dict of \<open>import_subscriptions\<close>; \<open>total_count\<close> is its key \<open>total\<close>.\<close>

record stats =
  total_count :: int
  successful :: int
  failed :: int
  already_subscribed :: int
  skipped :: int

text \<open>
  What the program does to the outside, in order: calls of the ledger, requests to the
  remote API, and sleeps (\<open>Sleep_seconds\<close> for a backoff wait, \<open>Sleep_wait_time\<close> for
  \<open>time.sleep(self.wait_time)\<close>). Logging is left out.
\<close>

datatype event =
    Call_save_progress int string int
  | Call_clear_progress
  | Request_list string
  | Request_insert string
  | Sleep_seconds int
  | Sleep_wait_time

text \<open>
  The environment answers the program: the result of the k-th
  \<open>subscriptions().insert(...).execute()\<close>, the result of the k-th
  \<open>subscriptions().list(forChannelId=...).execute()\<close> (the number of items of the response),
  whether the k-th write access to a file (\<open>open(.., 'w')\<close>, \<open>json.dump\<close>, \<open>os.remove\<close>)
  raises \<open>OSError\<close>, and the clock (\<open>datetime.now().isoformat()\<close>, which no result
  depends on). Reading a file fails according to the state of the file.
\<close>

record env =
  insert_result :: "nat \<Rightarrow> exn + unit"
  list_result :: "nat \<Rightarrow> exn + nat"
  file_fault :: "nat \<Rightarrow> bool"
  now :: string

record world =
  progress_file :: "jval dict disk_file"
  snapshot_file :: "snapshot disk_file"
  file_ops :: nat
  insert_calls :: nat
  list_calls :: nat
  trace :: "event list"

definition log_event :: "event \<Rightarrow> world \<Rightarrow> world" where
  "log_event e w = w\<lparr>trace := trace w @ [e]\<rparr>"

text \<open>
  \<open>with open(name, 'w') as f: json.dump(v, f)\<close>: a failing \<open>open\<close> leaves the file as it
  was, a failing \<open>json.dump\<close> leaves a truncated file.
\<close>

definition dump_progress :: "env \<Rightarrow> jval dict \<Rightarrow> world \<Rightarrow> world \<times> (exn + unit)" where
  "dump_progress env v w =
    (if file_fault env (file_ops w) then (w\<lparr>file_ops := file_ops w + 1\<rparr>, Inl OSError)
     else if file_fault env (file_ops w + 1)
       then (w\<lparr>file_ops := file_ops w + 2, progress_file := Garbage\<rparr>, Inl OSError)
     else (w\<lparr>file_ops := file_ops w + 2, progress_file := Json v\<rparr>, Inr ()))"

definition dump_snapshot :: "env \<Rightarrow> snapshot \<Rightarrow> world \<Rightarrow> world \<times> (exn + unit)" where
  "dump_snapshot env v w =
    (if file_fault env (file_ops w) then (w\<lparr>file_ops := file_ops w + 1\<rparr>, Inl OSError)
     else if file_fault env (file_ops w + 1)
       then (w\<lparr>file_ops := file_ops w + 2, snapshot_file := Garbage\<rparr>, Inl OSError)
     else (w\<lparr>file_ops := file_ops w + 2, snapshot_file := Json v\<rparr>, Inr ()))"

text \<open>\<open>with open(name, 'r') as f: json.load(f)\<close>\<close>

definition load_json :: "'a disk_file \<Rightarrow> exn + 'a" where
  "load_json f = (case f of Absent \<Rightarrow> Inl OSError | Garbage \<Rightarrow> Inl ValueError | Json v \<Rightarrow> Inr v)"

text \<open>\<open>os.remove(PROGRESS_FILE)\<close> on an existing file\<close>

definition remove_progress :: "env \<Rightarrow> world \<Rightarrow> world \<times> (exn + unit)" where
  "remove_progress env w =
    (if file_fault env (file_ops w) then (w\<lparr>file_ops := file_ops w + 1\<rparr>, Inl OSError)
     else (w\<lparr>file_ops := file_ops w + 1, progress_file := Absent\<rparr>, Inr ()))"

section \<open>Snapshot store\<close>

text \<open>
  \<open>save_subscriptions\<close> and \<open>load_subscriptions\<close>, for the default file name
  (no caller passes another).
\<close>

definition save_subscriptions :: "env \<Rightarrow> string dict list \<Rightarrow> world \<Rightarrow> world \<times> (exn + bool)" where
  "save_subscriptions env subs w =
    (let backup_data = \<lparr>export_date = now env,
                         total_subscriptions = int (length subs),
                         subscriptions = Some subs\<rparr>
     in case dump_snapshot env backup_data w of
          (w1, Inr u) \<Rightarrow> (w1, Inr True)
        | (w1, Inl e) \<Rightarrow> if is_Exception e then (w1, Inr False) else (w1, Inl e))"

definition load_subscriptions :: "env \<Rightarrow> world \<Rightarrow> world \<times> (exn + string dict list)" where
  "load_subscriptions env w =
    (case load_json (snapshot_file w) of
       Inr data \<Rightarrow> (w, Inr (case subscriptions data of None \<Rightarrow> [] | Some subs \<Rightarrow> subs))
     | Inl e \<Rightarrow> if is_Exception e then (w, Inr []) else (w, Inl e))"

section \<open>Progress ledger\<close>

definition save_progress :: "env \<Rightarrow> int \<Rightarrow> string \<Rightarrow> int \<Rightarrow> world \<Rightarrow> world \<times> (exn + unit)" where
  "save_progress env index channel_id tot w =
    (let progress_data = [(''last_processed_index'', JInt index),
                          (''last_channel_id'', JStr channel_id),
                          (''total_subscriptions'', JInt tot),
                          (''timestamp'', JStr (now env))]
     in case dump_progress env progress_data (log_event (Call_save_progress index channel_id tot) w) of
          (w1, Inr u) \<Rightarrow> (w1, Inr ())
        | (w1, Inl e) \<Rightarrow> if is_Exception e then (w1, Inr ()) else (w1, Inl e))"

definition load_progress :: "env \<Rightarrow> world \<Rightarrow> world \<times> (exn + jval dict)" where
  "load_progress env w =
    (if progress_file w \<noteq> Absent then
       (case load_json (progress_file w) of
          Inr data \<Rightarrow> (w, Inr data)
        | Inl e \<Rightarrow> if is_Exception e then (w, Inr []) else (w, Inl e))
     else (w, Inr []))"

definition clear_progress :: "env \<Rightarrow> world \<Rightarrow> world \<times> (exn + unit)" where
  "clear_progress env w =
    (let w0 = log_event Call_clear_progress w in
     if progress_file w0 \<noteq> Absent then
       (case remove_progress env w0 of
          (w1, Inr u) \<Rightarrow> (w1, Inr ())
        | (w1, Inl e) \<Rightarrow> if is_Exception e then (w1, Inr ()) else (w1, Inl e))
     else (w0, Inr ()))"

section \<open>Remote mutation client and retry policy\<close>

text \<open>\<open>is_already_subscribed\<close> catches \<open>HttpError\<close> only.\<close>

definition is_already_subscribed :: "env \<Rightarrow> string \<Rightarrow> world \<Rightarrow> world \<times> (exn + bool)" where
  "is_already_subscribed env channel_id w =
    (let w1 = log_event (Request_list channel_id) (w\<lparr>list_calls := list_calls w + 1\<rparr>) in
     case list_result env (list_calls w) of
       Inr n \<Rightarrow> (w1, Inr (n > 0))
     | Inl e \<Rightarrow> if is_HttpError e then (w1, Inr False) else (w1, Inl e))"

text \<open>
  Lines 279-280: the reason of an \<open>HttpError\<close>.
  \<open>e.error_details[0] if e.error_details else {}\<close> is the first item of a non-empty list,
  the first character of a non-empty string, and the empty dict otherwise; \<open>.get\<close> on
  anything but a dict raises \<open>AttributeError\<close>.
\<close>

definition error_reason :: "details \<Rightarrow> exn + string" where
  "error_reason error_details =
    (case error_details of
       Details_list items \<Rightarrow>
         if items \<noteq> [] then
           (case hd items of
              Dict_detail d \<Rightarrow> Inr (dict_get d ''reason'' ''unknown'')
            | Other_detail \<Rightarrow> Inl AttributeError)
         else Inr (dict_get [] ''reason'' ''unknown'')
     | Details_str text \<Rightarrow>
         if text \<noteq> [] then Inl AttributeError
         else Inr (dict_get [] ''reason'' ''unknown''))"

definition sleep :: "int \<Rightarrow> world \<Rightarrow> world" where
  "sleep wait_time w = log_event (Sleep_seconds wait_time) w"

text \<open>\<open>request.execute()\<close> of the insert request\<close>

definition execute_insert :: "env \<Rightarrow> string \<Rightarrow> world \<Rightarrow> world \<times> (exn + unit)" where
  "execute_insert env channel_id w =
    (log_event (Request_insert channel_id) (w\<lparr>insert_calls := insert_calls w + 1\<rparr>),
     insert_result env (insert_calls w))"

text \<open>
  The body of \<open>for attempt in range(max_retries)\<close>, over the attempts still to come.
  Leaving the list empty is the final \<open>return False\<close>. An exception raised inside the
  \<open>except HttpError\<close> handler is not caught by the \<open>except Exception\<close> clause beside it: it
  leaves the function.
\<close>

fun retry_loop :: "env \<Rightarrow> string \<Rightarrow> int \<Rightarrow> int list \<Rightarrow> world \<Rightarrow> world \<times> (exn + bool)" where
  "retry_loop env channel_id max_retries [] w = (w, Inr False)"
| "retry_loop env channel_id max_retries (attempt # rest) w =
    (case execute_insert env channel_id w of
       (w1, Inr u) \<Rightarrow> (w1, Inr True)
     | (w1, Inl (HttpError error_details)) \<Rightarrow>
         (case error_reason error_details of
            Inl raised \<Rightarrow> (w1, Inl raised)
          | Inr reason \<Rightarrow>
          if reason = ''subscriptionDuplicate'' then (w1, Inr True)
          else if reason = ''channelNotFound'' then (w1, Inr False)
          else if reason = ''quotaExceeded'' then (w1, Inr False)
          else if reason \<in> set [''rateLimitExceeded'', ''userRateLimitExceeded''] then
            (if attempt < max_retries - 1
             then retry_loop env channel_id max_retries rest (sleep ((2 ^ nat attempt) * 5) w1)
             else (w1, Inr False))
          else
            (if attempt < max_retries - 1
             then retry_loop env channel_id max_retries rest (sleep ((attempt + 1) * 2) w1)
             else retry_loop env channel_id max_retries rest w1))
     | (w1, Inl e) \<Rightarrow>
         (if is_Exception e then
            (if attempt < max_retries - 1
             then retry_loop env channel_id max_retries rest (sleep ((attempt + 1) * 2) w1)
             else retry_loop env channel_id max_retries rest w1)
          else (w1, Inl e)))"

definition py_range :: "int \<Rightarrow> int list" where
  "py_range n = map int [0..<nat n]"

definition subscribe_to_channel ::
  "env \<Rightarrow> string \<Rightarrow> string \<Rightarrow> int \<Rightarrow> world \<Rightarrow> world \<times> (exn + bool)" where
  "subscribe_to_channel env channel_id channel_title max_retries w =
    retry_loop env channel_id max_retries (py_range max_retries) w"

section \<open>Batch transfer engine\<close>

text \<open>Lines 379-385: the statistics a run over \<open>n\<close> items starts with.\<close>

definition initial_stats :: "nat \<Rightarrow> stats" where
  "initial_stats n = \<lparr>total_count = int n, successful = 0, failed = 0,
                      already_subscribed = 0, skipped = 0\<rparr>"

text \<open>
  Lines 387-399 of \<open>import_subscriptions\<close>: the start index and the statistics the loop
  starts with. \<open>progress.get('last_processed_index', 0) + 1\<close> raises \<open>TypeError\<close> on a
  string; \<open>if progress:\<close> is true of a non-empty dict.
\<close>

definition import_prologue ::
  "env \<Rightarrow> bool \<Rightarrow> string dict list \<Rightarrow> world \<Rightarrow> world \<times> (exn + int \<times> stats)" where
  "import_prologue env resume_mode subs w =
    (let stats = initial_stats (length subs);
         start_index = 0
     in if resume_mode then
          (case load_progress env w of
             (w1, Inl e) \<Rightarrow> (w1, Inl e)
           | (w1, Inr progress) \<Rightarrow>
               if progress \<noteq> [] then
                 (case dict_get progress ''last_processed_index'' (JInt 0) of
                    JInt k \<Rightarrow> (w1, Inr (k + 1, stats\<lparr>skipped := k + 1\<rparr>))
                  | JStr s \<Rightarrow> (w1, Inl TypeError))
               else (w1, Inr (start_index, stats)))
        else
          (case clear_progress env w of
             (w1, Inl e) \<Rightarrow> (w1, Inl e)
           | (w1, Inr u) \<Rightarrow> (w1, Inr (start_index, stats))))"

text \<open>
  Lines 408-429: the body of the loop for an item that is not skipped. \<open>subscription[k]\<close>
  raises \<open>KeyError\<close> on a missing key. The \<open>continue\<close> of line 420 leaves the body before
  the sleep of line 429.
\<close>

definition process_item ::
  "env \<Rightarrow> int \<Rightarrow> string dict \<Rightarrow> stats \<Rightarrow> world \<Rightarrow> world \<times> (exn + stats)" where
  "process_item env i subscription stats w =
    (case map_of subscription ''channel_id'' of
       None \<Rightarrow> (w, Inl (KeyError ''channel_id''))
     | Some channel_id \<Rightarrow>
    (case map_of subscription ''channel_title'' of
       None \<Rightarrow> (w, Inl (KeyError ''channel_title''))
     | Some channel_title \<Rightarrow>
    (case save_progress env i channel_id (total_count stats) w of
       (w1, Inl e) \<Rightarrow> (w1, Inl e)
     | (w1, Inr u) \<Rightarrow>
    (case is_already_subscribed env channel_id w1 of
       (w2, Inl e) \<Rightarrow> (w2, Inl e)
     | (w2, Inr True) \<Rightarrow>
         (w2, Inr (stats\<lparr>already_subscribed := already_subscribed stats + 1\<rparr>))
     | (w2, Inr False) \<Rightarrow>
    (case subscribe_to_channel env channel_id channel_title 3 w2 of
       (w3, Inl e) \<Rightarrow> (w3, Inl e)
     | (w3, Inr ok) \<Rightarrow>
         (log_event Sleep_wait_time w3,
          Inr (if ok then stats\<lparr>successful := successful stats + 1\<rparr>
               else stats\<lparr>failed := failed stats + 1\<rparr>)))))))"

text \<open>\<open>for i, subscription in enumerate(subscriptions)\<close>, from index \<open>i\<close> on.\<close>

fun import_loop ::
  "env \<Rightarrow> int \<Rightarrow> int \<Rightarrow> string dict list \<Rightarrow> stats \<Rightarrow> world \<Rightarrow> world \<times> (exn + stats)" where
  "import_loop env start_index i [] stats w = (w, Inr stats)"
| "import_loop env start_index i (subscription # rest) stats w =
    (if i < start_index then import_loop env start_index (i + 1) rest stats w
     else
       (case process_item env i subscription stats w of
          (w1, Inl e) \<Rightarrow> (w1, Inl e)
        | (w1, Inr stats1) \<Rightarrow> import_loop env start_index (i + 1) rest stats1 w1))"

definition import_subscriptions ::
  "env \<Rightarrow> bool \<Rightarrow> string dict list \<Rightarrow> world \<Rightarrow> world \<times> (exn + stats)" where
  "import_subscriptions env resume_mode subs w =
    (case import_prologue env resume_mode subs w of
       (w1, Inl e) \<Rightarrow> (w1, Inl e)
     | (w1, Inr (start_index, stats)) \<Rightarrow>
    (case import_loop env start_index 0 subs stats w1 of
       (w2, Inl e) \<Rightarrow> (w2, Inl e)
     | (w2, Inr stats2) \<Rightarrow>
    (case clear_progress env w2 of
       (w3, Inl e) \<Rightarrow> (w3, Inl e)
     | (w3, Inr u) \<Rightarrow> (w3, Inr stats2))))"

section \<open>Observations and example inputs\<close>

text \<open>The indices for which \<open>save_progress\<close> was called, in order.\<close>

fun saved_index :: "event \<Rightarrow> int list" where
  "saved_index (Call_save_progress index channel_id tot) = [index]"
| "saved_index _ = []"

definition saved_indices :: "event list \<Rightarrow> int list" where
  "saved_indices es = concat (map saved_index es)"

text \<open>The number of inter-item sleeps \<open>time.sleep(self.wait_time)\<close>.\<close>

definition wait_sleeps :: "event list \<Rightarrow> nat" where
  "wait_sleeps es = length (filter (\<lambda>e. e = Sleep_wait_time) es)"

text \<open>The most recent write access to a file raised.\<close>

definition last_file_op_failed :: "env \<Rightarrow> world \<Rightarrow> bool" where
  "last_file_op_failed env w = (0 < file_ops w \<and> file_fault env (file_ops w - 1))"

text \<open>
  \<open>w1\<close> comes from \<open>w\<close> by insert requests and backoff sleeps only: no call of the
  ledger, no pre-check, no inter-item sleep, no file touched.
\<close>

definition retries_only :: "world \<Rightarrow> world \<Rightarrow> bool" where
  "retries_only w w1 =
    ((\<exists>es. trace w1 = trace w @ es \<and> saved_indices es = [] \<and> wait_sleeps es = 0)
     \<and> progress_file w1 = progress_file w \<and> snapshot_file w1 = snapshot_file w
     \<and> file_ops w1 = file_ops w \<and> list_calls w1 = list_calls w)"

definition world0 :: world where
  "world0 = \<lparr>progress_file = Absent, snapshot_file = Absent, file_ops = 0,
             insert_calls = 0, list_calls = 0, trace = []\<rparr>"

definition sub_a :: "string dict" where
  "sub_a = [(''channel_id'', ''UC_a''), (''channel_title'', ''A''),
            (''channel_description'', ''first''), (''published_at'', ''2020-01-01T00:00:00Z''),
            (''subscription_id'', ''s1'')]"

definition sub_b :: "string dict" where
  "sub_b = [(''channel_id'', ''UC_b''), (''channel_title'', ''B''),
            (''channel_description'', ''second''), (''published_at'', ''2021-01-01T00:00:00Z''),
            (''subscription_id'', ''s2'')]"

definition sub_c :: "string dict" where
  "sub_c = [(''channel_id'', ''UC_c''), (''channel_title'', ''C''),
            (''channel_description'', ''third''), (''published_at'', ''2022-01-01T00:00:00Z''),
            (''subscription_id'', ''s3'')]"

definition http_error :: "string \<Rightarrow> exn" where
  "http_error reason = HttpError (Details_list [Dict_detail [(''reason'', reason)]])"

text \<open>Every insert succeeds, nothing is subscribed yet, no file access fails.\<close>

definition env_ok :: env where
  "env_ok = \<lparr>insert_result = (\<lambda>k. Inr ()), list_result = (\<lambda>k. Inr 0),
             file_fault = (\<lambda>k. False), now = ''2024-01-01T00:00:00''\<rparr>"

definition env_rate_limited :: env where
  "env_rate_limited = env_ok\<lparr>insert_result := (\<lambda>k. Inl (http_error ''rateLimitExceeded''))\<rparr>"

definition env_not_found :: env where
  "env_not_found = env_ok\<lparr>insert_result := (\<lambda>k. Inl (http_error ''channelNotFound''))\<rparr>"

definition env_duplicate :: env where
  "env_duplicate = env_ok\<lparr>insert_result := (\<lambda>k. Inl (http_error ''subscriptionDuplicate''))\<rparr>"

text \<open>Every insert request is answered by a gateway's HTML error page.\<close>

definition env_bad_gateway :: env where
  "env_bad_gateway =
     env_ok\<lparr>insert_result := (\<lambda>k. Inl (HttpError (Details_str ''<html>502 Bad Gateway</html>'')))\<rparr>"

text \<open>Every channel is found subscribed by the pre-check.\<close>

definition env_subscribed :: env where
  "env_subscribed = env_ok\<lparr>list_result := (\<lambda>k. Inr 1)\<rparr>"

text \<open>The operator interrupts the first insert request.\<close>

definition env_interrupted :: env where
  "env_interrupted =
     env_ok\<lparr>insert_result := (\<lambda>k. if k = 0 then Inl KeyboardInterrupt else Inr ())\<rparr>"

text \<open>The third write access fails; every write access fails; the first write access fails.\<close>

definition env_third_access_fails :: env where
  "env_third_access_fails = env_ok\<lparr>file_fault := (\<lambda>k. k = 2)\<rparr>"

definition env_files_fail :: env where
  "env_files_fail = env_ok\<lparr>file_fault := (\<lambda>k. True)\<rparr>"

definition env_first_access_fails :: env where
  "env_first_access_fails = env_ok\<lparr>file_fault := (\<lambda>k. k = 0)\<rparr>"

text \<open>A progress record left by an earlier run.\<close>

definition stale_record :: "int \<Rightarrow> jval dict" where
  "stale_record k = [(''last_processed_index'', JInt k), (''last_channel_id'', JStr ''UC_old''),
                     (''total_subscriptions'', JInt 9), (''timestamp'', JStr ''2023-06-01T12:00:00'')]"

definition world_stale :: "int \<Rightarrow> world" where
  "world_stale k = world0\<lparr>progress_file := Json (stale_record k)\<rparr>"

text \<open>
  The world an interrupted run leaves behind: a fresh run over two items from \<open>world0\<close>,
  interrupted in the insert request of the first.
\<close>

definition world_interrupted :: world where
  "world_interrupted =
     world0\<lparr>progress_file := Json [(''last_processed_index'', JInt 0),
                                     (''last_channel_id'', JStr ''UC_a''),
                                     (''total_subscriptions'', JInt 2),
                                     (''timestamp'', JStr ''2024-01-01T00:00:00'')],
             file_ops := 2, insert_calls := 1, list_calls := 1,
             trace := [Call_clear_progress, Call_save_progress 0 ''UC_a'' 2,
                       Request_list ''UC_a'', Request_insert ''UC_a'']\<rparr>"

section \<open>Evaluation\<close>

lemmas run_defs =
  import_subscriptions_def import_prologue_def process_item_def
  save_progress_def load_progress_def clear_progress_def dump_progress_def remove_progress_def
  load_json_def is_already_subscribed_def subscribe_to_channel_def py_range_def upt_rec
  execute_insert_def error_reason_def dict_get_def sleep_def log_event_def initial_stats_def
  Let_def

lemmas example_defs =
  world0_def world_stale_def stale_record_def sub_a_def sub_b_def sub_c_def http_error_def
  env_ok_def env_rate_limited_def env_not_found_def env_duplicate_def env_bad_gateway_def
  env_subscribed_def
  env_interrupted_def env_third_access_fails_def env_files_fail_def env_first_access_fails_def
  world_interrupted_def

section \<open>Progress ledger and snapshot store\<close>

lemma save_progress_returns: "snd (save_progress env index channel_id tot w) = Inr ()"
  by (simp add: save_progress_def dump_progress_def Let_def)

lemma clear_progress_returns: "snd (clear_progress env w) = Inr ()"
  by (simp add: clear_progress_def remove_progress_def Let_def)

lemma load_progress_eq:
  "load_progress env w = (w, Inr (case progress_file w of Json d \<Rightarrow> d | _ \<Rightarrow> []))"
  by (simp add: load_progress_def load_json_def split: disk_file.splits)

lemma load_subscriptions_eq:
  "load_subscriptions env w =
     (w, Inr (case snapshot_file w of
                Json d \<Rightarrow> (case subscriptions d of None \<Rightarrow> [] | Some subs \<Rightarrow> subs)
              | _ \<Rightarrow> []))"
  by (simp add: load_subscriptions_def load_json_def split: disk_file.splits)

text \<open>
  Claim C9. No read or write failure leaves the progress ledger or the snapshot store:
  \<open>save_progress\<close> and \<open>clear_progress\<close> return normally whatever the file accesses do,
  \<open>load_progress\<close> returns the empty dict when the record is missing or cannot be read or
  parsed, and \<open>load_subscriptions\<close> returns the empty list when the snapshot is missing
  or cannot be read or parsed.
\<close>

theorem ledger_and_snapshot_swallow_failures:
  "snd (save_progress env index channel_id tot w) = Inr ()
   \<and> snd (clear_progress env w) = Inr ()
   \<and> (\<exists>d. load_progress env w = (w, Inr d))
   \<and> (progress_file w = Absent \<or> progress_file w = Garbage \<longrightarrow>
        load_progress env w = (w, Inr []))
   \<and> (\<exists>subs. load_subscriptions env w = (w, Inr subs))
   \<and> (snapshot_file w = Absent \<or> snapshot_file w = Garbage \<longrightarrow>
        load_subscriptions env w = (w, Inr []))"
  by (auto simp add: save_progress_returns clear_progress_returns load_progress_eq
        load_subscriptions_eq)

theorem ledger_and_snapshot_swallow_failures_witness:
  "progress_file (world0\<lparr>snapshot_file := Garbage\<rparr>) = Absent
   \<and> snapshot_file (world0\<lparr>snapshot_file := Garbage\<rparr>) = Garbage
   \<and> snd (save_progress env_files_fail 0 ''UC_a'' 1 (world0\<lparr>snapshot_file := Garbage\<rparr>)) = Inr ()
   \<and> snd (clear_progress env_files_fail (world0\<lparr>snapshot_file := Garbage\<rparr>)) = Inr ()
   \<and> load_progress env_files_fail (world0\<lparr>snapshot_file := Garbage\<rparr>)
       = (world0\<lparr>snapshot_file := Garbage\<rparr>, Inr [])
   \<and> load_subscriptions env_files_fail (world0\<lparr>snapshot_file := Garbage\<rparr>)
       = (world0\<lparr>snapshot_file := Garbage\<rparr>, Inr [])"
  using ledger_and_snapshot_swallow_failures
          [of env_files_fail 0 "''UC_a''" 1 "world0\<lparr>snapshot_file := Garbage\<rparr>"]
  by (simp add: world0_def)

text \<open>
  Claim C8. A snapshot that was saved (\<open>save_subscriptions\<close> returned true) loads as the
  same records in the same order, and the document written holds the length of the list
  as \<open>total_subscriptions\<close>.
\<close>

theorem snapshot_round_trip:
  assumes "save_subscriptions env subs w = (w1, Inr True)"
  shows "load_subscriptions env w1 = (w1, Inr subs)
         \<and> (\<exists>d. snapshot_file w1 = Json d \<and> total_subscriptions d = int (length subs))"
  using assms
  by (auto simp add: save_subscriptions_def dump_snapshot_def load_subscriptions_eq Let_def
        split: if_splits)

theorem snapshot_round_trip_witness:
  "save_subscriptions env_ok [sub_a, sub_b, sub_c] world0
     = (world0\<lparr>file_ops := 2,
                snapshot_file := Json \<lparr>export_date = ''2024-01-01T00:00:00'',
                                       total_subscriptions = 3,
                                       subscriptions = Some [sub_a, sub_b, sub_c]\<rparr>\<rparr>, Inr True)
   \<and> load_subscriptions env_ok
        (world0\<lparr>file_ops := 2,
                snapshot_file := Json \<lparr>export_date = ''2024-01-01T00:00:00'',
                                       total_subscriptions = 3,
                                       subscriptions = Some [sub_a, sub_b, sub_c]\<rparr>\<rparr>)
     = (world0\<lparr>file_ops := 2,
                snapshot_file := Json \<lparr>export_date = ''2024-01-01T00:00:00'',
                                       total_subscriptions = 3,
                                       subscriptions = Some [sub_a, sub_b, sub_c]\<rparr>\<rparr>,
        Inr [sub_a, sub_b, sub_c])"
proof -
  have saved: "save_subscriptions env_ok [sub_a, sub_b, sub_c] world0
     = (world0\<lparr>file_ops := 2,
                snapshot_file := Json \<lparr>export_date = ''2024-01-01T00:00:00'',
                                       total_subscriptions = 3,
                                       subscriptions = Some [sub_a, sub_b, sub_c]\<rparr>\<rparr>, Inr True)"
    by (simp add: save_subscriptions_def dump_snapshot_def env_ok_def world0_def Let_def)
  from snapshot_round_trip [OF saved] saved show ?thesis by simp
qed

section \<open>Retry policy\<close>

lemma execute_insert_simp:
  "execute_insert env channel_id w =
    (w\<lparr>insert_calls := insert_calls w + 1, trace := trace w @ [Request_insert channel_id]\<rparr>,
     insert_result env (insert_calls w))"
  by (simp add: execute_insert_def log_event_def)

lemma py_range_pos: "0 < n \<Longrightarrow> py_range n = 0 # map (\<lambda>k. k + 1) (py_range (n - 1))"
proof -
  assume "0 < n"
  then obtain m where m: "nat n = Suc m" by (cases "nat n") auto
  then have "nat (n - 1) = m" by simp
  then show ?thesis
    by (simp add: py_range_def m upt_conv_Cons map_Suc_upt[symmetric] del: upt_Suc)
qed

text \<open>
  At whatever attempt the loop stands, a request that succeeds or reports
  \<open>subscriptionDuplicate\<close> ends it with true, and one that reports \<open>channelNotFound\<close> or
  \<open>quotaExceeded\<close> ends it with false: one request, no wait, no further attempt. Details
  that \<open>.get\<close> cannot read end it with the exception raised in the handler.
\<close>

lemma retry_loop_success:
  "insert_result env (insert_calls w) = Inr () \<Longrightarrow>
   retry_loop env channel_id max_retries (attempt # rest) w =
     (w\<lparr>insert_calls := insert_calls w + 1, trace := trace w @ [Request_insert channel_id]\<rparr>,
      Inr True)"
  by (simp add: execute_insert_simp)

lemma retry_loop_duplicate:
  "insert_result env (insert_calls w) = Inl (HttpError error_details) \<Longrightarrow>
   error_reason error_details = Inr ''subscriptionDuplicate'' \<Longrightarrow>
   retry_loop env channel_id max_retries (attempt # rest) w =
     (w\<lparr>insert_calls := insert_calls w + 1, trace := trace w @ [Request_insert channel_id]\<rparr>,
      Inr True)"
  by (simp add: execute_insert_simp)

lemma retry_loop_permanent:
  "insert_result env (insert_calls w) = Inl (HttpError error_details) \<Longrightarrow>
   error_reason error_details = Inr ''channelNotFound''
     \<or> error_reason error_details = Inr ''quotaExceeded'' \<Longrightarrow>
   retry_loop env channel_id max_retries (attempt # rest) w =
     (w\<lparr>insert_calls := insert_calls w + 1, trace := trace w @ [Request_insert channel_id]\<rparr>,
      Inr False)"
  by (erule disjE) (simp_all add: execute_insert_simp)

lemma retry_loop_handler_raises:
  "insert_result env (insert_calls w) = Inl (HttpError error_details) \<Longrightarrow>
   error_reason error_details = Inl raised \<Longrightarrow>
   retry_loop env channel_id max_retries (attempt # rest) w =
     (w\<lparr>insert_calls := insert_calls w + 1, trace := trace w @ [Request_insert channel_id]\<rparr>,
      Inl raised)"
  by (simp add: execute_insert_simp)

text \<open>
  When every request returns or raises an \<open>Exception\<close>, and the details of every
  \<open>HttpError\<close> can be read, the loop ends with a boolean.
\<close>

lemma retry_loop_returns:
  assumes "\<forall>k e. insert_result env k = Inl e \<longrightarrow> is_Exception e"
      and "\<forall>k error_details. insert_result env k = Inl (HttpError error_details)
             \<longrightarrow> \<not> isl (error_reason error_details)"
  shows "\<not> isl (snd (retry_loop env channel_id max_retries attempts w))"
proof (induction attempts arbitrary: w)
  case Nil
  show ?case by simp
next
  case (Cons attempt rest)
  note ih = Cons.IH
  show ?case
  proof (cases "insert_result env (insert_calls w)")
    case (Inr u)
    then show ?thesis by (simp add: execute_insert_simp)
  next
    case (Inl e)
    with assms(1) have ex: "is_Exception e" by blast
    show ?thesis
    proof (cases e)
      case (HttpError error_details)
      with Inl assms(2) have "\<not> isl (error_reason error_details)" by blast
      then obtain reason where "error_reason error_details = Inr reason"
        by (cases "error_reason error_details") simp_all
      with Inl HttpError show ?thesis
        by (simp add: execute_insert_simp ih)
    next
      case KeyboardInterrupt
      with ex show ?thesis by simp
    qed (simp_all add: Inl execute_insert_simp ih)
  qed
qed

lemma subscribe_to_channel_returns:
  assumes "\<forall>k e. insert_result env k = Inl e \<longrightarrow> is_Exception e"
      and "\<forall>k error_details. insert_result env k = Inl (HttpError error_details)
             \<longrightarrow> \<not> isl (error_reason error_details)"
  shows "\<exists>w' b. subscribe_to_channel env channel_id channel_title max_retries w = (w', Inr b)"
proof -
  from retry_loop_returns [OF assms, of channel_id max_retries "py_range max_retries" w]
  have "\<not> isl (snd (subscribe_to_channel env channel_id channel_title max_retries w))"
    by (simp add: subscribe_to_channel_def)
  then show ?thesis
  proof (cases "subscribe_to_channel env channel_id channel_title max_retries w")
    case (Pair w' r)
    assume "\<not> isl (snd (subscribe_to_channel env channel_id channel_title max_retries w))"
    with Pair show ?thesis by (cases r) simp_all
  qed
qed

section \<open>Batch transfer engine: lemmas\<close>

lemma saved_indices_append: "saved_indices (xs @ ys) = saved_indices xs @ saved_indices ys"
  by (simp add: saved_indices_def)

lemma wait_sleeps_append: "wait_sleeps (xs @ ys) = wait_sleeps xs + wait_sleeps ys"
  by (simp add: wait_sleeps_def)

lemma retries_only_refl: "retries_only w w"
  by (simp add: retries_only_def saved_indices_def wait_sleeps_def)

lemma retries_only_trans:
  assumes "retries_only w w1" and "retries_only w1 w2"
  shows "retries_only w w2"
proof -
  from assms(1) obtain es where es: "trace w1 = trace w @ es" "saved_indices es = []" "wait_sleeps es = 0"
    unfolding retries_only_def by blast
  from assms(2) obtain fs where fs: "trace w2 = trace w1 @ fs" "saved_indices fs = []" "wait_sleeps fs = 0"
    unfolding retries_only_def by blast
  have "trace w2 = trace w @ (es @ fs)" "saved_indices (es @ fs) = []" "wait_sleeps (es @ fs) = 0"
    using es fs by (simp_all add: saved_indices_append wait_sleeps_append)
  then have "\<exists>gs. trace w2 = trace w @ gs \<and> saved_indices gs = [] \<and> wait_sleeps gs = 0"
    by blast
  moreover have "progress_file w2 = progress_file w" "snapshot_file w2 = snapshot_file w"
    "file_ops w2 = file_ops w" "list_calls w2 = list_calls w"
    using assms unfolding retries_only_def by simp_all
  ultimately show ?thesis unfolding retries_only_def by simp
qed

lemma retries_only_insert:
  "retries_only w (w\<lparr>insert_calls := n, trace := trace w @ [Request_insert channel_id]\<rparr>)"
  by (simp add: retries_only_def saved_indices_def wait_sleeps_def)

lemma retries_only_sleep: "retries_only w (sleep d w)"
  by (simp add: retries_only_def sleep_def log_event_def saved_indices_def wait_sleeps_def)

lemma retry_loop_effect:
  "retry_loop env channel_id max_retries attempts w = (w1, r) \<Longrightarrow> retries_only w w1"
proof (induction attempts arbitrary: w)
  case Nil
  then show ?case by (simp add: retries_only_refl)
next
  case (Cons attempt rest)
  let ?w1 = "w\<lparr>insert_calls := Suc (insert_calls w), trace := trace w @ [Request_insert channel_id]\<rparr>"
  have a: "retries_only w ?w1" by (rule retries_only_insert)
  have here: "w1 = ?w1 \<Longrightarrow> retries_only w w1"
    using a by simp
  have plain: "retry_loop env channel_id max_retries rest ?w1 = (w1, r) \<Longrightarrow> retries_only w w1"
    using Cons.IH[of ?w1] a retries_only_trans by blast
  have slept: "retry_loop env channel_id max_retries rest (sleep d ?w1) = (w1, r) \<Longrightarrow> retries_only w w1" for d
    using Cons.IH[of "sleep d ?w1"] a retries_only_sleep[of ?w1 d] retries_only_trans by blast
  from Cons.prems have prem:
    "(case (?w1, insert_result env (insert_calls w)) of
       (w1, Inr u) \<Rightarrow> (w1, Inr True)
     | (w1, Inl (HttpError error_details)) \<Rightarrow>
         (case error_reason error_details of
            Inl raised \<Rightarrow> (w1, Inl raised)
          | Inr reason \<Rightarrow>
          if reason = ''subscriptionDuplicate'' then (w1, Inr True)
          else if reason = ''channelNotFound'' then (w1, Inr False)
          else if reason = ''quotaExceeded'' then (w1, Inr False)
          else if reason \<in> set [''rateLimitExceeded'', ''userRateLimitExceeded''] then
            (if attempt < max_retries - 1
             then retry_loop env channel_id max_retries rest (sleep ((2 ^ nat attempt) * 5) w1)
             else (w1, Inr False))
          else
            (if attempt < max_retries - 1
             then retry_loop env channel_id max_retries rest (sleep ((attempt + 1) * 2) w1)
             else retry_loop env channel_id max_retries rest w1))
     | (w1, Inl e) \<Rightarrow>
         (if is_Exception e then
            (if attempt < max_retries - 1
             then retry_loop env channel_id max_retries rest (sleep ((attempt + 1) * 2) w1)
             else retry_loop env channel_id max_retries rest w1)
          else (w1, Inl e))) = (w1, r)"
    by (simp only: retry_loop.simps execute_insert_simp Suc_eq_plus1)
  show ?case
  proof (cases "insert_result env (insert_calls w)")
    case (Inr u)
    with prem a show ?thesis by auto
  next
    case (Inl e)
    show ?thesis
    proof (cases e)
      case (HttpError details)
      from prem Inl HttpError show ?thesis
        by (simp split: sum.splits if_splits) (use a plain slept in auto)
    next
      case (KeyError k)
      from prem Inl KeyError show ?thesis
        by (simp split: if_splits) (use a plain slept in auto)
    next
      case TypeError
      from prem Inl TypeError show ?thesis
        by (simp split: if_splits) (use a plain slept in auto)
    next
      case OSError
      from prem Inl OSError show ?thesis
        by (simp split: if_splits) (use a plain slept in auto)
    next
      case ValueError
      from prem Inl ValueError show ?thesis
        by (simp split: if_splits) (use a plain slept in auto)
    next
      case AttributeError
      from prem Inl AttributeError show ?thesis
        by (simp split: if_splits) (use a plain slept in auto)
    next
      case KeyboardInterrupt
      from prem Inl KeyboardInterrupt a show ?thesis by auto
    qed
  qed
qed


lemma subscribe_to_channel_effect:
  "subscribe_to_channel env channel_id channel_title max_retries w = (w1, r) \<Longrightarrow> retries_only w w1"
  unfolding subscribe_to_channel_def by (rule retry_loop_effect)

lemma save_progress_effect:
  assumes "save_progress env index channel_id tot w = (w1, r)"
  shows "r = Inr () \<and> trace w1 = trace w @ [Call_save_progress index channel_id tot]
         \<and> insert_calls w1 = insert_calls w \<and> list_calls w1 = list_calls w
         \<and> snapshot_file w1 = snapshot_file w"
  using assms
  by (auto simp add: save_progress_def dump_progress_def log_event_def Let_def split: if_splits)

lemma is_already_subscribed_effect:
  assumes "is_already_subscribed env channel_id w = (w1, r)"
  shows "trace w1 = trace w @ [Request_list channel_id] \<and> progress_file w1 = progress_file w
         \<and> file_ops w1 = file_ops w \<and> insert_calls w1 = insert_calls w
         \<and> list_calls w1 = list_calls w + 1 \<and> snapshot_file w1 = snapshot_file w"
  using assms
  by (auto simp add: is_already_subscribed_def log_event_def Let_def split: sum.splits if_splits)

lemma clear_progress_effect:
  assumes "clear_progress env w = (w1, r)"
  shows "r = Inr () \<and> trace w1 = trace w @ [Call_clear_progress]
         \<and> insert_calls w1 = insert_calls w \<and> list_calls w1 = list_calls w
         \<and> snapshot_file w1 = snapshot_file w
         \<and> (progress_file w1 = Absent \<or> last_file_op_failed env w1)"
  using assms
  by (auto simp add: clear_progress_def remove_progress_def log_event_def Let_def
        last_file_op_failed_def split: if_splits)

text \<open>What one pass through the loop body does to the trace and the statistics.\<close>

lemma process_item_cases:
  assumes "process_item env i subscription stats w = (w4, Inr stats1)"
  obtains channel_id channel_title w1 w2
    where "map_of subscription ''channel_id'' = Some channel_id"
      and "map_of subscription ''channel_title'' = Some channel_title"
      and "save_progress env i channel_id (total_count stats) w = (w1, Inr ())"
      and "is_already_subscribed env channel_id w1 = (w2, Inr True)"
      and "w4 = w2"
      and "stats1 = stats\<lparr>already_subscribed := already_subscribed stats + 1\<rparr>"
  | channel_id channel_title w1 w2 w3 ok
    where "map_of subscription ''channel_id'' = Some channel_id"
      and "map_of subscription ''channel_title'' = Some channel_title"
      and "save_progress env i channel_id (total_count stats) w = (w1, Inr ())"
      and "is_already_subscribed env channel_id w1 = (w2, Inr False)"
      and "subscribe_to_channel env channel_id channel_title 3 w2 = (w3, Inr ok)"
      and "w4 = log_event Sleep_wait_time w3"
      and "stats1 = (if ok then stats\<lparr>successful := successful stats + 1\<rparr>
                     else stats\<lparr>failed := failed stats + 1\<rparr>)"
  using assms unfolding process_item_def
  by (auto split: option.splits prod.splits sum.splits bool.splits)

lemma process_item_effect:
  assumes "process_item env i subscription stats w = (w4, Inr stats1)"
  shows "saved_indices (trace w4) = saved_indices (trace w) @ [i]"
    and "total_count stats1 = total_count stats"
    and "skipped stats1 = skipped stats"
    and "successful stats1 + failed stats1 + already_subscribed stats1
          = successful stats + failed stats + already_subscribed stats + 1"
    and "int (wait_sleeps (trace w4)) - (successful stats1 + failed stats1)
          = int (wait_sleeps (trace w)) - (successful stats + failed stats)"
proof -
  from assms show "saved_indices (trace w4) = saved_indices (trace w) @ [i]"
  proof (cases rule: process_item_cases)
    case (1 channel_id channel_title w1 w2)
    from save_progress_effect[OF 1(3)] is_already_subscribed_effect[OF 1(4)] 1(5)
    show ?thesis by (simp add: saved_indices_def)
  next
    case (2 channel_id channel_title w1 w2 w3 ok)
    from subscribe_to_channel_effect[OF 2(5)] obtain es
      where "trace w3 = trace w2 @ es" "saved_indices es = []"
      unfolding retries_only_def by blast
    with save_progress_effect[OF 2(3)] is_already_subscribed_effect[OF 2(4)] 2(6)
    show ?thesis by (simp add: saved_indices_def log_event_def)
  qed
  from assms show "total_count stats1 = total_count stats"
    by (cases rule: process_item_cases) auto
  from assms show "skipped stats1 = skipped stats"
    by (cases rule: process_item_cases) auto
  from assms show "successful stats1 + failed stats1 + already_subscribed stats1
          = successful stats + failed stats + already_subscribed stats + 1"
    by (cases rule: process_item_cases) auto
  from assms show "int (wait_sleeps (trace w4)) - (successful stats1 + failed stats1)
          = int (wait_sleeps (trace w)) - (successful stats + failed stats)"
  proof (cases rule: process_item_cases)
    case (1 channel_id channel_title w1 w2)
    from save_progress_effect[OF 1(3)] is_already_subscribed_effect[OF 1(4)] 1(5) 1(6)
    show ?thesis by (simp add: wait_sleeps_def)
  next
    case (2 channel_id channel_title w1 w2 w3 ok)
    from subscribe_to_channel_effect[OF 2(5)] obtain es
      where "trace w3 = trace w2 @ es" "wait_sleeps es = 0"
      unfolding retries_only_def by blast
    with save_progress_effect[OF 2(3)] is_already_subscribed_effect[OF 2(4)] 2(6) 2(7)
    show ?thesis by (simp add: wait_sleeps_def log_event_def)
  qed
qed


lemma upto_from: "[i..i + int n] = i # [i + 1..i + int n]"
  by (subst upto_rec1) simp_all

lemma import_loop_effect:
  assumes "import_loop env start i subs stats w = (w1, Inr stats1)"
  shows "saved_indices (trace w1)
          = saved_indices (trace w) @ filter (\<lambda>j. start \<le> j) [i..i + int (length subs) - 1]
         \<and> total_count stats1 = total_count stats
         \<and> skipped stats1 = skipped stats
         \<and> successful stats1 + failed stats1 + already_subscribed stats1
            = successful stats + failed stats + already_subscribed stats
              + int (length (filter (\<lambda>j. start \<le> j) [i..i + int (length subs) - 1]))
         \<and> int (wait_sleeps (trace w1)) - (successful stats1 + failed stats1)
            = int (wait_sleeps (trace w)) - (successful stats + failed stats)"
  using assms
proof (induction subs arbitrary: i stats w)
  case Nil
  then show ?case by simp
next
  case (Cons subscription rest)
  show ?case
  proof (cases "i < start")
    case True
    with Cons.prems have "import_loop env start (i + 1) rest stats w = (w1, Inr stats1)"
      by simp
    from Cons.IH[OF this] True show ?thesis
      by (simp add: upto_from)
  next
    case False
    with Cons.prems obtain w2 stats2
      where item: "process_item env i subscription stats w = (w2, Inr stats2)"
        and rest: "import_loop env start (i + 1) rest stats2 w2 = (w1, Inr stats1)"
      by (auto split: prod.splits sum.splits)
    from Cons.IH[OF rest] process_item_effect[OF item] False show ?thesis
      by (simp add: upto_from)
  qed
qed

lemma import_loop_skips_all:
  "i + int (length subs) \<le> start \<Longrightarrow> import_loop env start i subs stats w = (w, Inr stats)"
  by (induction subs arbitrary: i) auto

lemma import_subscriptions_cases:
  assumes "import_subscriptions env resume_mode subs w = (w3, Inr stats2)"
  obtains w1 start_index stats w2
    where "import_prologue env resume_mode subs w = (w1, Inr (start_index, stats))"
      and "import_loop env start_index 0 subs stats w1 = (w2, Inr stats2)"
      and "clear_progress env w2 = (w3, Inr ())"
  using assms unfolding import_subscriptions_def
  by (auto split: prod.splits sum.splits)

lemma import_prologue_fresh:
  "import_prologue env False subs w =
     (fst (clear_progress env w),
      Inr (0, \<lparr>total_count = int (length subs), successful = 0, failed = 0,
                already_subscribed = 0, skipped = 0\<rparr>))"
  using clear_progress_returns[of env w]
  by (cases "clear_progress env w") (simp add: import_prologue_def initial_stats_def Let_def)

lemma import_prologue_resume:
  "import_prologue env True subs w =
     (w, case progress_file w of
           Json d \<Rightarrow>
             if d \<noteq> [] then
               (case dict_get d ''last_processed_index'' (JInt 0) of
                  JInt k \<Rightarrow> Inr (k + 1, \<lparr>total_count = int (length subs), successful = 0,
                                           failed = 0, already_subscribed = 0, skipped = k + 1\<rparr>)
                | JStr s \<Rightarrow> Inl TypeError)
             else Inr (0, \<lparr>total_count = int (length subs), successful = 0, failed = 0,
                            already_subscribed = 0, skipped = 0\<rparr>)
         | _ \<Rightarrow> Inr (0, \<lparr>total_count = int (length subs), successful = 0, failed = 0,
                          already_subscribed = 0, skipped = 0\<rparr>))"
  by (simp add: import_prologue_def initial_stats_def load_progress_eq Let_def
        split: disk_file.splits jval.splits)

lemma all_from_zero: "filter (\<lambda>j. (0::int) \<le> j) [0..m] = [0..m]"
  by (rule filter_True) simp

lemma clear_progress_removes:
  "progress_file (fst (clear_progress env w)) = Absent \<or> file_fault env (file_ops w)"
  by (simp add: clear_progress_def remove_progress_def log_event_def Let_def)

lemma clear_progress_frame:
  "trace (fst (clear_progress env w)) = trace w @ [Call_clear_progress]
   \<and> insert_calls (fst (clear_progress env w)) = insert_calls w
   \<and> list_calls (fst (clear_progress env w)) = list_calls w"
  by (simp add: clear_progress_def remove_progress_def log_event_def Let_def)

lemma import_prologue_effect:
  assumes "import_prologue env resume_mode subs w = (w1, Inr (start_index, stats))"
  shows "wait_sleeps (trace w1) = wait_sleeps (trace w)
         \<and> saved_indices (trace w1) = saved_indices (trace w)
         \<and> successful stats = 0 \<and> failed stats = 0 \<and> already_subscribed stats = 0
         \<and> total_count stats = int (length subs) \<and> skipped stats = (if resume_mode then start_index else 0)
         \<and> (\<not> resume_mode \<longrightarrow> start_index = 0)"
proof (cases resume_mode)
  case True
  with assms show ?thesis
    by (auto simp add: import_prologue_resume wait_sleeps_def saved_indices_def
          split: disk_file.splits if_splits jval.splits)
next
  case False
  with assms clear_progress_frame[of env w] show ?thesis
    by (auto simp add: import_prologue_fresh wait_sleeps_def saved_indices_def)
qed

section \<open>Batch transfer engine: a fresh run\<close>

text \<open>
  Claim C1, as stated, fails: \<open>clear_progress\<close> swallows a failing \<open>os.remove\<close>, so a
  complete fresh run can return its statistics and leave the progress record on disk.
  Here the third write access, the removal after the loop, fails.
\<close>

theorem fresh_run_record_survives_failed_removal:
  "snd (import_subscriptions env_third_access_fails False [sub_a] world0)
     = Inr \<lparr>total_count = 1, successful = 1, failed = 0, already_subscribed = 0, skipped = 0\<rparr>
   \<and> progress_file (fst (import_subscriptions env_third_access_fails False [sub_a] world0))
     = Json [(''last_processed_index'', JInt 0), (''last_channel_id'', JStr ''UC_a''),
             (''total_subscriptions'', JInt 1), (''timestamp'', JStr ''2024-01-01T00:00:00'')]"
  by (simp add: run_defs example_defs)

text \<open>
  Claim C1, amended. For every non-empty list, a fresh run (\<open>resume_mode\<close> false) that
  returns has \<open>successful + failed + already_subscribed = total\<close>, with \<open>total\<close> the
  length of the list, and calls \<open>clear_progress\<close> after the loop: no progress record is
  left unless that removal failed.
\<close>

theorem complete_fresh_run:
  assumes "subs \<noteq> []"
      and "import_subscriptions env False subs w = (w', Inr st)"
  shows "successful st + failed st + already_subscribed st = total_count st
         \<and> total_count st = int (length subs)
         \<and> last (trace w') = Call_clear_progress
         \<and> (progress_file w' = Absent \<or> last_file_op_failed env w')"
proof -
  from assms(2) obtain w1 start_index stats w2
    where pro: "import_prologue env False subs w = (w1, Inr (start_index, stats))"
      and loop: "import_loop env start_index 0 subs stats w1 = (w2, Inr st)"
      and clear: "clear_progress env w2 = (w', Inr ())"
    by (rule import_subscriptions_cases)
  from import_prologue_effect[OF pro] import_loop_effect[OF loop]
  have "successful st + failed st + already_subscribed st = int (length subs)"
    and "total_count st = int (length subs)"
    by (simp_all add: all_from_zero)
  with clear_progress_effect[OF clear] show ?thesis by simp
qed

theorem complete_fresh_run_witness:
  "[sub_a, sub_b] \<noteq> []
   \<and> import_subscriptions env_ok False [sub_a, sub_b] world0
     = (world0\<lparr>file_ops := 5, insert_calls := 2, list_calls := 2,
               trace := [Call_clear_progress,
                         Call_save_progress 0 ''UC_a'' 2, Request_list ''UC_a'',
                         Request_insert ''UC_a'', Sleep_wait_time,
                         Call_save_progress 1 ''UC_b'' 2, Request_list ''UC_b'',
                         Request_insert ''UC_b'', Sleep_wait_time,
                         Call_clear_progress]\<rparr>,
        Inr \<lparr>total_count = 2, successful = 2, failed = 0, already_subscribed = 0, skipped = 0\<rparr>)
   \<and> progress_file (fst (import_subscriptions env_ok False [sub_a, sub_b] world0)) = Absent"
proof -
  have nonempty: "[sub_a, sub_b] \<noteq> []" by simp
  have run: "import_subscriptions env_ok False [sub_a, sub_b] world0
     = (world0\<lparr>file_ops := 5, insert_calls := 2, list_calls := 2,
               trace := [Call_clear_progress,
                         Call_save_progress 0 ''UC_a'' 2, Request_list ''UC_a'',
                         Request_insert ''UC_a'', Sleep_wait_time,
                         Call_save_progress 1 ''UC_b'' 2, Request_list ''UC_b'',
                         Request_insert ''UC_b'', Sleep_wait_time,
                         Call_clear_progress]\<rparr>,
        Inr \<lparr>total_count = 2, successful = 2, failed = 0, already_subscribed = 0, skipped = 0\<rparr>)"
    by (simp add: run_defs example_defs)
  from complete_fresh_run [OF nonempty run] run show ?thesis
    by (simp add: last_file_op_failed_def env_ok_def world0_def)
qed

text \<open>
  Claim C4, as stated, fails: when the removal before the loop fails, the stale record is
  not cleared. Here every write access fails, and the stale record is still there when
  the loop starts and when the run has returned.
\<close>

theorem stale_record_survives_failed_removal:
  "progress_file (fst (import_prologue env_files_fail False [sub_a] (world_stale 5)))
     = Json (stale_record 5)
   \<and> progress_file (fst (import_subscriptions env_files_fail False [sub_a] (world_stale 5)))
     = Json (stale_record 5)
   \<and> snd (import_subscriptions env_files_fail False [sub_a] (world_stale 5))
     = Inr \<lparr>total_count = 1, successful = 1, failed = 0, already_subscribed = 0, skipped = 0\<rparr>"
  by (simp add: run_defs example_defs)

text \<open>
  Claim C4, amended. A fresh run calls \<open>clear_progress\<close> before the loop, which removes a
  stale record unless the removal fails; in every case the record is ignored: the start
  index is 0, a run that returns has called \<open>save_progress\<close> for each index from 0 to the
  end of the list, in order, and reports \<open>skipped = 0\<close>.
\<close>

theorem fresh_run_ignores_stale_record:
  "(\<exists>w1. import_prologue env False subs w = (w1, Inr (0, initial_stats (length subs)))
         \<and> trace w1 = trace w @ [Call_clear_progress]
         \<and> (progress_file w1 = Absent \<or> file_fault env (file_ops w)))
   \<and> (\<forall>w' st. import_subscriptions env False subs w = (w', Inr st) \<longrightarrow>
         skipped st = 0
         \<and> saved_indices (trace w') = saved_indices (trace w) @ [0..int (length subs) - 1])"
proof -
  have "\<exists>w1. import_prologue env False subs w = (w1, Inr (0, initial_stats (length subs)))
         \<and> trace w1 = trace w @ [Call_clear_progress]
         \<and> (progress_file w1 = Absent \<or> file_fault env (file_ops w))"
    using clear_progress_removes[of env w] clear_progress_frame[of env w]
    by (simp add: import_prologue_fresh initial_stats_def)
  moreover have "skipped st = 0
         \<and> saved_indices (trace w') = saved_indices (trace w) @ [0..int (length subs) - 1]"
    if run: "import_subscriptions env False subs w = (w', Inr st)" for w' st
  proof -
    from run obtain w1 start_index stats w2
      where pro: "import_prologue env False subs w = (w1, Inr (start_index, stats))"
        and loop: "import_loop env start_index 0 subs stats w1 = (w2, Inr st)"
        and clear: "clear_progress env w2 = (w', Inr ())"
      by (rule import_subscriptions_cases)
    from import_prologue_effect[OF pro] import_loop_effect[OF loop] clear_progress_effect[OF clear]
    show ?thesis
      by (simp add: all_from_zero saved_indices_def)
  qed
  ultimately show ?thesis by blast
qed

theorem fresh_run_ignores_stale_record_witness:
  "import_prologue env_ok False [sub_a] (world_stale 5)
     = (world0\<lparr>file_ops := 1, trace := [Call_clear_progress]\<rparr>, Inr (0, initial_stats 1))
   \<and> import_subscriptions env_ok False [sub_a] (world_stale 5)
     = (world0\<lparr>file_ops := 4, insert_calls := 1, list_calls := 1,
               trace := [Call_clear_progress, Call_save_progress 0 ''UC_a'' 1,
                         Request_list ''UC_a'', Request_insert ''UC_a'', Sleep_wait_time,
                         Call_clear_progress]\<rparr>,
        Inr \<lparr>total_count = 1, successful = 1, failed = 0, already_subscribed = 0, skipped = 0\<rparr>)
   \<and> saved_indices (trace (fst (import_subscriptions env_ok False [sub_a] (world_stale 5)))) = [0]"
proof -
  have run: "import_subscriptions env_ok False [sub_a] (world_stale 5)
     = (world0\<lparr>file_ops := 4, insert_calls := 1, list_calls := 1,
               trace := [Call_clear_progress, Call_save_progress 0 ''UC_a'' 1,
                         Request_list ''UC_a'', Request_insert ''UC_a'', Sleep_wait_time,
                         Call_clear_progress]\<rparr>,
        Inr \<lparr>total_count = 1, successful = 1, failed = 0, already_subscribed = 0, skipped = 0\<rparr>)"
    by (simp add: run_defs example_defs)
  have pro: "import_prologue env_ok False [sub_a] (world_stale 5)
     = (world0\<lparr>file_ops := 1, trace := [Call_clear_progress]\<rparr>, Inr (0, initial_stats 1))"
    by (simp add: run_defs example_defs)
  from fresh_run_ignores_stale_record [of env_ok "[sub_a]" "world_stale 5"] run pro
  show ?thesis
    by (simp add: saved_indices_def world_stale_def world0_def)
qed

section \<open>Batch transfer engine: resuming\<close>

text \<open>
  Claim C3. In resume mode, when the progress record holds \<open>last_processed_index = k\<close> the
  start index is \<open>k + 1\<close>, a run that returns reports \<open>skipped = k + 1\<close> and has called
  \<open>save_progress\<close> exactly for the indices from \<open>k + 1\<close> on; when no progress record exists
  the start index is 0 and \<open>skipped\<close> is 0.
\<close>

theorem resume_start_index:
  "(progress_file w = Json d \<and> map_of d ''last_processed_index'' = Some (JInt k) \<longrightarrow>
      import_prologue env True subs w
        = (w, Inr (k + 1, (initial_stats (length subs))\<lparr>skipped := k + 1\<rparr>))
      \<and> (\<forall>w' st. import_subscriptions env True subs w = (w', Inr st) \<longrightarrow>
            skipped st = k + 1
            \<and> saved_indices (trace w')
               = saved_indices (trace w) @ filter (\<lambda>j. k + 1 \<le> j) [0..int (length subs) - 1]))
   \<and> (progress_file w = Absent \<longrightarrow>
      import_prologue env True subs w = (w, Inr (0, initial_stats (length subs)))
      \<and> (\<forall>w' st. import_subscriptions env True subs w = (w', Inr st) \<longrightarrow>
            skipped st = 0
            \<and> saved_indices (trace w') = saved_indices (trace w) @ [0..int (length subs) - 1]))"
proof -
  have run: "skipped st = start_index
      \<and> saved_indices (trace w')
         = saved_indices (trace w) @ filter (\<lambda>j. start_index \<le> j) [0..int (length subs) - 1]"
    if pro: "import_prologue env True subs w = (w, Inr (start_index, stats))"
      and res: "import_subscriptions env True subs w = (w', Inr st)"
    for start_index stats w' st
  proof -
    from res obtain w1 start_index' stats' w2
      where pro': "import_prologue env True subs w = (w1, Inr (start_index', stats'))"
        and loop: "import_loop env start_index' 0 subs stats' w1 = (w2, Inr st)"
        and clear: "clear_progress env w2 = (w', Inr ())"
      by (rule import_subscriptions_cases)
    from pro pro' have same: "w1 = w" "start_index' = start_index" "stats' = stats" by simp_all
    from import_prologue_effect[OF pro] import_loop_effect[OF loop] clear_progress_effect[OF clear]
    show ?thesis
      by (simp add: same saved_indices_def)
  qed
  have stored: "import_prologue env True subs w
        = (w, Inr (k + 1, (initial_stats (length subs))\<lparr>skipped := k + 1\<rparr>))"
    if "progress_file w = Json d" and "map_of d ''last_processed_index'' = Some (JInt k)"
  proof -
    from that(2) have "d \<noteq> []" by auto
    with that show ?thesis
      by (simp add: import_prologue_resume dict_get_def initial_stats_def)
  qed
  have none: "import_prologue env True subs w = (w, Inr (0, initial_stats (length subs)))"
    if "progress_file w = Absent"
    using that by (simp add: import_prologue_resume initial_stats_def)
  show ?thesis
    using run[OF stored] run[OF none] stored none
    by (simp add: all_from_zero)
qed

theorem resume_start_index_witness:
  "progress_file (world_stale 0) = Json (stale_record 0)
   \<and> map_of (stale_record 0) ''last_processed_index'' = Some (JInt 0)
   \<and> import_prologue env_ok True [sub_a, sub_b] (world_stale 0)
     = (world_stale 0, Inr (1, (initial_stats 2)\<lparr>skipped := 1\<rparr>))
   \<and> import_subscriptions env_ok True [sub_a, sub_b] (world_stale 0)
     = (world0\<lparr>file_ops := 3, insert_calls := 1, list_calls := 1,
               trace := [Call_save_progress 1 ''UC_b'' 2, Request_list ''UC_b'',
                         Request_insert ''UC_b'', Sleep_wait_time, Call_clear_progress]\<rparr>,
        Inr \<lparr>total_count = 2, successful = 1, failed = 0, already_subscribed = 0, skipped = 1\<rparr>)
   \<and> progress_file world0 = Absent
   \<and> import_prologue env_ok True [sub_a, sub_b] world0 = (world0, Inr (0, initial_stats 2))
   \<and> import_subscriptions env_ok True [sub_a, sub_b] world0
     = (world0\<lparr>file_ops := 5, insert_calls := 2, list_calls := 2,
               trace := [Call_save_progress 0 ''UC_a'' 2, Request_list ''UC_a'',
                         Request_insert ''UC_a'', Sleep_wait_time,
                         Call_save_progress 1 ''UC_b'' 2, Request_list ''UC_b'',
                         Request_insert ''UC_b'', Sleep_wait_time, Call_clear_progress]\<rparr>,
        Inr \<lparr>total_count = 2, successful = 2, failed = 0, already_subscribed = 0, skipped = 0\<rparr>)"
proof -
  have stored: "progress_file (world_stale 0) = Json (stale_record 0)
      \<and> map_of (stale_record 0) ''last_processed_index'' = Some (JInt 0)"
    by (simp add: world_stale_def world0_def stale_record_def)
  have none: "progress_file world0 = Absent"
    by (simp add: world0_def)
  have run1: "import_subscriptions env_ok True [sub_a, sub_b] (world_stale 0)
     = (world0\<lparr>file_ops := 3, insert_calls := 1, list_calls := 1,
               trace := [Call_save_progress 1 ''UC_b'' 2, Request_list ''UC_b'',
                         Request_insert ''UC_b'', Sleep_wait_time, Call_clear_progress]\<rparr>,
        Inr \<lparr>total_count = 2, successful = 1, failed = 0, already_subscribed = 0, skipped = 1\<rparr>)"
    by (simp add: run_defs example_defs)
  have run2: "import_subscriptions env_ok True [sub_a, sub_b] world0
     = (world0\<lparr>file_ops := 5, insert_calls := 2, list_calls := 2,
               trace := [Call_save_progress 0 ''UC_a'' 2, Request_list ''UC_a'',
                         Request_insert ''UC_a'', Sleep_wait_time,
                         Call_save_progress 1 ''UC_b'' 2, Request_list ''UC_b'',
                         Request_insert ''UC_b'', Sleep_wait_time, Call_clear_progress]\<rparr>,
        Inr \<lparr>total_count = 2, successful = 2, failed = 0, already_subscribed = 0, skipped = 0\<rparr>)"
    by (simp add: run_defs example_defs)
  from resume_start_index [of "world_stale 0" "stale_record 0" 0 env_ok "[sub_a, sub_b]"]
       resume_start_index [of world0 "stale_record 0" 0 env_ok "[sub_a, sub_b]"]
       stored none run1 run2
  show ?thesis by (simp add: initial_stats_def)
qed

text \<open>
  Claim C10, as stated, fails in its last part: when the removal after the loop fails, the
  stale record is not cleared. Here the stored index is 0, the list has one item, and the
  only write access of the run, the removal, fails.
\<close>

theorem resume_past_end_record_survives_failed_removal:
  "int (length [sub_a]) - 1 \<le> 0
   \<and> import_subscriptions env_first_access_fails True [sub_a] (world_stale 0)
     = ((world_stale 0)\<lparr>file_ops := 1, trace := [Call_clear_progress]\<rparr>,
        Inr \<lparr>total_count = 1, successful = 0, failed = 0, already_subscribed = 0, skipped = 1\<rparr>)
   \<and> progress_file (fst (import_subscriptions env_first_access_fails True [sub_a] (world_stale 0)))
     = Json (stale_record 0)"
  by (simp add: run_defs example_defs)

text \<open>
  Claim C10, amended. The stored index is not checked against the list: in resume mode with
  a stored \<open>last_processed_index = k\<close> of at least \<open>len(items) - 1\<close>, the loop processes no
  item (no request, no call of \<open>save_progress\<close>), the statistics are
  \<open>skipped = k + 1\<close> and zero for \<open>successful\<close>, \<open>failed\<close> and \<open>already_subscribed\<close>, and
  \<open>clear_progress\<close> is called at the end, which removes the record unless the removal fails.
\<close>

theorem resume_past_the_end:
  assumes "progress_file w = Json d"
      and "map_of d ''last_processed_index'' = Some (JInt k)"
      and "int (length subs) - 1 \<le> k"
  shows "\<exists>w'. import_subscriptions env True subs w
                 = (w', Inr \<lparr>total_count = int (length subs), successful = 0, failed = 0,
                              already_subscribed = 0, skipped = k + 1\<rparr>)
              \<and> trace w' = trace w @ [Call_clear_progress]
              \<and> insert_calls w' = insert_calls w \<and> list_calls w' = list_calls w
              \<and> (progress_file w' = Absent \<or> file_fault env (file_ops w))"
proof -
  from assms(2) have "d \<noteq> []" by auto
  with assms(1,2) have pro: "import_prologue env True subs w
      = (w, Inr (k + 1, \<lparr>total_count = int (length subs), successful = 0, failed = 0,
                          already_subscribed = 0, skipped = k + 1\<rparr>))"
    by (simp add: import_prologue_resume dict_get_def)
  from assms(3) have "0 + int (length subs) \<le> k + 1" by simp
  then have loop: "import_loop env (k + 1) 0 subs stats w = (w, Inr stats)" for stats
    by (rule import_loop_skips_all)
  have "import_subscriptions env True subs w
      = (fst (clear_progress env w),
         Inr \<lparr>total_count = int (length subs), successful = 0, failed = 0,
               already_subscribed = 0, skipped = k + 1\<rparr>)"
    using clear_progress_returns[of env w]
    by (cases "clear_progress env w") (simp add: import_subscriptions_def pro loop)
  with clear_progress_removes[of env w] clear_progress_frame[of env w]
  show ?thesis by simp
qed

theorem resume_past_the_end_witness:
  "progress_file (world_stale 7) = Json (stale_record 7)
   \<and> map_of (stale_record 7) ''last_processed_index'' = Some (JInt 7)
   \<and> int (length [sub_a]) - 1 \<le> 7
   \<and> import_subscriptions env_ok True [sub_a] (world_stale 7)
     = (world0\<lparr>file_ops := 1, trace := [Call_clear_progress]\<rparr>,
        Inr \<lparr>total_count = 1, successful = 0, failed = 0, already_subscribed = 0, skipped = 8\<rparr>)"
proof -
  have a: "progress_file (world_stale 7) = Json (stale_record 7)"
    by (simp add: world_stale_def world0_def)
  have b: "map_of (stale_record 7) ''last_processed_index'' = Some (JInt 7)"
    by (simp add: stale_record_def)
  have c: "int (length [sub_a]) - 1 \<le> 7" by simp
  have run: "import_subscriptions env_ok True [sub_a] (world_stale 7)
     = (world0\<lparr>file_ops := 1, trace := [Call_clear_progress]\<rparr>,
        Inr \<lparr>total_count = 1, successful = 0, failed = 0, already_subscribed = 0, skipped = 8\<rparr>)"
    by (simp add: run_defs example_defs)
  from resume_past_the_end [OF a b c, of env_ok] a b c run show ?thesis by simp
qed

text \<open>
  Claim C2. \<open>save_progress(i, ...)\<close> is called before the pre-check and before any insert
  request for item \<open>i\<close>, and it stores \<open>i\<close> as \<open>last_processed_index\<close>; a resume starts
  at \<open>last_processed_index + 1\<close>. So the record is ahead of the progress made while item
  \<open>i\<close> is in work: a run over two items interrupted in the insert request of item 0 leaves
  the record at index 0, and the resumed run starts at index 1, reports \<open>skipped = 1\<close> and
  sends no request for item 0, which was never subscribed.
\<close>

theorem interrupted_item_is_skipped_on_resume:
  "import_subscriptions env_interrupted False [sub_a, sub_b] world0
     = (world_interrupted, Inl KeyboardInterrupt)
   \<and> progress_file world_interrupted
     = Json [(''last_processed_index'', JInt 0), (''last_channel_id'', JStr ''UC_a''),
             (''total_subscriptions'', JInt 2), (''timestamp'', JStr ''2024-01-01T00:00:00'')]
   \<and> import_subscriptions env_interrupted True [sub_a, sub_b] world_interrupted
     = (world0\<lparr>file_ops := 5, insert_calls := 2, list_calls := 2,
               trace := trace world_interrupted
                        @ [Call_save_progress 1 ''UC_b'' 2, Request_list ''UC_b'',
                           Request_insert ''UC_b'', Sleep_wait_time, Call_clear_progress]\<rparr>,
        Inr \<lparr>total_count = 2, successful = 1, failed = 0, already_subscribed = 0, skipped = 1\<rparr>)"
  by (simp add: run_defs example_defs)

text \<open>
  Whatever the loop body does for item \<open>i\<close>, its first action is the call of
  \<open>save_progress\<close> for \<open>i\<close>.
\<close>

lemma process_item_saves_first:
  assumes "process_item env i subscription stats w = (w1, r)"
  shows "trace w1 = trace w
         \<or> (\<exists>channel_id es. map_of subscription ''channel_id'' = Some channel_id
               \<and> trace w1 = trace w @ Call_save_progress i channel_id (total_count stats) # es)"
proof (cases "map_of subscription ''channel_id''")
  case None
  with assms show ?thesis by (simp add: process_item_def)
next
  case (Some channel_id)
  show ?thesis
  proof (cases "map_of subscription ''channel_title''")
    case None
    with assms Some show ?thesis by (simp add: process_item_def)
  next
    case title: (Some channel_title)
    obtain wa ra where save: "save_progress env i channel_id (total_count stats) w = (wa, ra)"
      by (cases "save_progress env i channel_id (total_count stats) w")
    obtain wb rb where check: "is_already_subscribed env channel_id wa = (wb, rb)"
      by (cases "is_already_subscribed env channel_id wa")
    obtain wc rc where sub: "subscribe_to_channel env channel_id channel_title 3 wb = (wc, rc)"
      by (cases "subscribe_to_channel env channel_id channel_title 3 wb")
    from subscribe_to_channel_effect[OF sub] obtain es where es: "trace wc = trace wb @ es"
      unfolding retries_only_def by blast
    from save_progress_effect[OF save] have ra: "ra = Inr ()"
      and ta: "trace wa = trace w @ [Call_save_progress i channel_id (total_count stats)]"
      by simp_all
    from is_already_subscribed_effect[OF check]
    have tb: "trace wb = trace wa @ [Request_list channel_id]" by simp
    from assms Some title save check sub ra
    have "w1 = wb \<or> w1 = wc \<or> w1 = log_event Sleep_wait_time wc"
      by (auto simp add: process_item_def split: sum.splits bool.splits)
    with ta tb es Some show ?thesis
      by (auto simp add: log_event_def)
  qed
qed

section \<open>Batch transfer engine: the inter-item sleep\<close>

text \<open>
  Claim C6, as stated, fails: the \<open>continue\<close> after the pre-check leaves the loop body
  before \<open>time.sleep(self.wait_time)\<close>. Here the only item is found subscribed, and the run
  returns without any inter-item sleep.
\<close>

theorem no_sleep_after_already_subscribed:
  "import_subscriptions env_subscribed False [sub_a] world0
     = (world0\<lparr>file_ops := 3, list_calls := 1,
               trace := [Call_clear_progress, Call_save_progress 0 ''UC_a'' 1,
                         Request_list ''UC_a'', Call_clear_progress]\<rparr>,
        Inr \<lparr>total_count = 1, successful = 0, failed = 0, already_subscribed = 1, skipped = 0\<rparr>)
   \<and> wait_sleeps (trace (fst (import_subscriptions env_subscribed False [sub_a] world0))) = 0"
  by (simp add: run_defs example_defs wait_sleeps_def)

text \<open>
  Claim C6, amended. An item for which \<open>subscribe_to_channel\<close> was called, whether it
  returned true or false, is followed by one sleep of \<open>wait_time\<close> before the next item;
  an item found subscribed by the pre-check is followed by none. A run that returns has
  slept \<open>successful + failed\<close> times between items.
\<close>

theorem inter_item_sleep_after_attempts:
  "(\<forall>w1 stats1. process_item env i subscription stats w = (w1, Inr stats1) \<longrightarrow>
      (already_subscribed stats1 = already_subscribed stats + 1
       \<and> successful stats1 + failed stats1 = successful stats + failed stats
       \<and> wait_sleeps (trace w1) = wait_sleeps (trace w))
      \<or> (already_subscribed stats1 = already_subscribed stats
          \<and> successful stats1 + failed stats1 = successful stats + failed stats + 1
          \<and> last (trace w1) = Sleep_wait_time
          \<and> wait_sleeps (trace w1) = wait_sleeps (trace w) + 1))
   \<and> (\<forall>w' st. import_subscriptions env resume_mode subs w = (w', Inr st) \<longrightarrow>
        int (wait_sleeps (trace w')) = int (wait_sleeps (trace w)) + successful st + failed st)"
proof -
  have item: "(already_subscribed stats1 = already_subscribed stats + 1
       \<and> successful stats1 + failed stats1 = successful stats + failed stats
       \<and> wait_sleeps (trace w1) = wait_sleeps (trace w))
      \<or> (already_subscribed stats1 = already_subscribed stats
          \<and> successful stats1 + failed stats1 = successful stats + failed stats + 1
          \<and> last (trace w1) = Sleep_wait_time
          \<and> wait_sleeps (trace w1) = wait_sleeps (trace w) + 1)"
    if "process_item env i subscription stats w = (w1, Inr stats1)" for w1 stats1
    using that
  proof (cases rule: process_item_cases)
    case (1 channel_id channel_title wa wb)
    from save_progress_effect[OF 1(3)] is_already_subscribed_effect[OF 1(4)] 1(5) 1(6)
    show ?thesis by (simp add: wait_sleeps_def)
  next
    case (2 channel_id channel_title wa wb wc ok)
    from subscribe_to_channel_effect[OF 2(5)] obtain es
      where "trace wc = trace wb @ es" "wait_sleeps es = 0"
      unfolding retries_only_def by blast
    with save_progress_effect[OF 2(3)] is_already_subscribed_effect[OF 2(4)] 2(6) 2(7)
    show ?thesis by (simp add: wait_sleeps_def log_event_def)
  qed
  have run: "int (wait_sleeps (trace w')) = int (wait_sleeps (trace w)) + successful st + failed st"
    if "import_subscriptions env resume_mode subs w = (w', Inr st)" for w' st
  proof -
    from that obtain w1 start_index stats0 w2
      where pro: "import_prologue env resume_mode subs w = (w1, Inr (start_index, stats0))"
        and loop: "import_loop env start_index 0 subs stats0 w1 = (w2, Inr st)"
        and clear: "clear_progress env w2 = (w', Inr ())"
      by (rule import_subscriptions_cases)
    from import_prologue_effect[OF pro] import_loop_effect[OF loop] clear_progress_effect[OF clear]
    show ?thesis
      by (simp add: wait_sleeps_def)
  qed
  from item run show ?thesis by blast
qed

theorem inter_item_sleep_after_attempts_witness:
  "process_item env_ok 0 sub_a (initial_stats 1) world0
     = (world0\<lparr>progress_file := Json [(''last_processed_index'', JInt 0),
                                      (''last_channel_id'', JStr ''UC_a''),
                                      (''total_subscriptions'', JInt 1),
                                      (''timestamp'', JStr ''2024-01-01T00:00:00'')],
               file_ops := 2, insert_calls := 1, list_calls := 1,
               trace := [Call_save_progress 0 ''UC_a'' 1, Request_list ''UC_a'',
                         Request_insert ''UC_a'', Sleep_wait_time]\<rparr>,
        Inr ((initial_stats 1)\<lparr>successful := 1\<rparr>))
   \<and> import_subscriptions env_not_found False [sub_a, sub_b] world0
     = (world0\<lparr>file_ops := 5, insert_calls := 2, list_calls := 2,
               trace := [Call_clear_progress,
                         Call_save_progress 0 ''UC_a'' 2, Request_list ''UC_a'',
                         Request_insert ''UC_a'', Sleep_wait_time,
                         Call_save_progress 1 ''UC_b'' 2, Request_list ''UC_b'',
                         Request_insert ''UC_b'', Sleep_wait_time,
                         Call_clear_progress]\<rparr>,
        Inr \<lparr>total_count = 2, successful = 0, failed = 2, already_subscribed = 0, skipped = 0\<rparr>)
   \<and> wait_sleeps (trace (fst (import_subscriptions env_not_found False [sub_a, sub_b] world0))) = 2"
proof -
  have item: "process_item env_ok 0 sub_a (initial_stats 1) world0
     = (world0\<lparr>progress_file := Json [(''last_processed_index'', JInt 0),
                                      (''last_channel_id'', JStr ''UC_a''),
                                      (''total_subscriptions'', JInt 1),
                                      (''timestamp'', JStr ''2024-01-01T00:00:00'')],
               file_ops := 2, insert_calls := 1, list_calls := 1,
               trace := [Call_save_progress 0 ''UC_a'' 1, Request_list ''UC_a'',
                         Request_insert ''UC_a'', Sleep_wait_time]\<rparr>,
        Inr ((initial_stats 1)\<lparr>successful := 1\<rparr>))"
    by (simp add: run_defs example_defs)
  have run: "import_subscriptions env_not_found False [sub_a, sub_b] world0
     = (world0\<lparr>file_ops := 5, insert_calls := 2, list_calls := 2,
               trace := [Call_clear_progress,
                         Call_save_progress 0 ''UC_a'' 2, Request_list ''UC_a'',
                         Request_insert ''UC_a'', Sleep_wait_time,
                         Call_save_progress 1 ''UC_b'' 2, Request_list ''UC_b'',
                         Request_insert ''UC_b'', Sleep_wait_time,
                         Call_clear_progress]\<rparr>,
        Inr \<lparr>total_count = 2, successful = 0, failed = 2, already_subscribed = 0, skipped = 0\<rparr>)"
    by (simp add: run_defs example_defs)
  from inter_item_sleep_after_attempts
         [where env = env_ok and i = 0 and subscription = sub_a and stats = "initial_stats 1"
            and w = world0 and resume_mode = False and subs = "[sub_a]"]
       inter_item_sleep_after_attempts
         [where env = env_not_found and i = 0 and subscription = sub_a
            and stats = "initial_stats 1" and w = world0 and resume_mode = False
            and subs = "[sub_a, sub_b]"]
       item run
  show ?thesis
    by (simp add: wait_sleeps_def world0_def)
qed

section \<open>Retry policy: evaluation\<close>

text \<open>
  Claim C5. With \<open>max_retries = 3\<close> the loop is \<open>for attempt in range(3)\<close> and a wait needs
  \<open>attempt < 2\<close>: an item that is rate limited at every attempt gets three insert requests
  with waits of 5 and 10 seconds between them, then false; the wait of 20 seconds and the
  fourth attempt never happen.
\<close>

theorem rate_limited_item_gets_three_attempts:
  "subscribe_to_channel env_rate_limited ''UC_a'' ''A'' 3 world0 =
     (world0\<lparr>insert_calls := 3,
              trace := [Request_insert ''UC_a'', Sleep_seconds 5,
                        Request_insert ''UC_a'', Sleep_seconds 10,
                        Request_insert ''UC_a'']\<rparr>,
      Inr False)"
  by (simp add: run_defs example_defs)

text \<open>
  Claim C7. \<open>subscribe_to_channel\<close> returns true at once on a success or
  \<open>subscriptionDuplicate\<close> and false at once on \<open>channelNotFound\<close> or \<open>quotaExceeded\<close>, but it
  does not always resolve to a boolean: when the request raises an \<open>HttpError\<close> whose
  \<open>error_details\<close> is a non-empty string (the response was an HTML error page),
  \<open>error_details.get\<close> raises \<open>AttributeError\<close> inside the \<open>except HttpError\<close> handler, and
  the exception leaves the function after one request.
\<close>

theorem unreadable_error_details_leave_subscribe_to_channel:
  "subscribe_to_channel env_bad_gateway ''UC_a'' ''A'' 3 world0 =
     (world0\<lparr>insert_calls := 1, trace := [Request_insert ''UC_a'']\<rparr>, Inl AttributeError)"
  by (simp add: run_defs example_defs)

end
